theory Spec2Isabelle
  imports Complex_Main
begin

section \<open>JavaScript numbers\<close>

text \<open>
  The tuner computes with JavaScript numbers (IEEE-754 doubles). The model keeps the
  three special values, which decide several branches of the code (\<open>0 / 0\<close>,
  comparisons with \<open>NaN\<close>, division by zero), and takes a finite number to be a real.
  Sums, differences and products of finite numbers are exact. A quotient of finite
  numbers is exact as long as it stays within the range of the doubles, and leaves the
  finite numbers where the division of doubles does: it is an infinity from
  \<open>2^1024 - 2^970\<close> on (the midpoint between the largest double and \<open>2^1024\<close>, which
  rounds to \<open>Infinity\<close>), and zero up to \<open>2^-1075\<close> (half the smallest positive
  double, which rounds to zero). Rounding to 53 bits (and to 24 bits when a value is
  stored in a \<open>Float32Array\<close>) and the sign of a zero are outside the model. A zero
  divisor is read as \<open>+0\<close>.
\<close>

datatype jsnum = Finite real | PosInf | NegInf | NaN

fun js_neg :: "jsnum \<Rightarrow> jsnum" where
  "js_neg (Finite x) = Finite (- x)"
| "js_neg PosInf = NegInf"
| "js_neg NegInf = PosInf"
| "js_neg NaN = NaN"

fun js_add :: "jsnum \<Rightarrow> jsnum \<Rightarrow> jsnum" where
  "js_add (Finite x) (Finite y) = Finite (x + y)"
| "js_add (Finite x) PosInf = PosInf"
| "js_add (Finite x) NegInf = NegInf"
| "js_add PosInf (Finite y) = PosInf"
| "js_add PosInf PosInf = PosInf"
| "js_add PosInf NegInf = NaN"
| "js_add NegInf (Finite y) = NegInf"
| "js_add NegInf NegInf = NegInf"
| "js_add NegInf PosInf = NaN"
| "js_add NaN b = NaN"
| "js_add a NaN = NaN"

definition js_sub :: "jsnum \<Rightarrow> jsnum \<Rightarrow> jsnum" where
  "js_sub a b = js_add a (js_neg b)"

fun js_mul :: "jsnum \<Rightarrow> jsnum \<Rightarrow> jsnum" where
  "js_mul (Finite x) (Finite y) = Finite (x * y)"
| "js_mul (Finite x) PosInf = (if x = 0 then NaN else if 0 < x then PosInf else NegInf)"
| "js_mul (Finite x) NegInf = (if x = 0 then NaN else if 0 < x then NegInf else PosInf)"
| "js_mul PosInf (Finite y) = (if y = 0 then NaN else if 0 < y then PosInf else NegInf)"
| "js_mul NegInf (Finite y) = (if y = 0 then NaN else if 0 < y then NegInf else PosInf)"
| "js_mul PosInf PosInf = PosInf"
| "js_mul PosInf NegInf = NegInf"
| "js_mul NegInf PosInf = NegInf"
| "js_mul NegInf NegInf = PosInf"
| "js_mul NaN b = NaN"
| "js_mul a NaN = NaN"

definition OVERFLOW :: real where
  "OVERFLOW = 2 ^ 1024 - 2 ^ 970"

definition UNDERFLOW :: real where
  "UNDERFLOW = 1 / 2 ^ 1075"

definition js_quotient :: "real \<Rightarrow> jsnum" where
  "js_quotient q =
     (if OVERFLOW \<le> q then PosInf
      else if q \<le> - OVERFLOW then NegInf
      else if \<bar>q\<bar> \<le> UNDERFLOW then Finite 0
      else Finite q)"

fun js_div :: "jsnum \<Rightarrow> jsnum \<Rightarrow> jsnum" where
  "js_div (Finite x) (Finite y) =
     (if y = 0 then (if x = 0 then NaN else if 0 < x then PosInf else NegInf)
      else js_quotient (x / y))"
| "js_div (Finite x) PosInf = Finite 0"
| "js_div (Finite x) NegInf = Finite 0"
| "js_div PosInf (Finite y) = (if 0 \<le> y then PosInf else NegInf)"
| "js_div NegInf (Finite y) = (if 0 \<le> y then NegInf else PosInf)"
| "js_div PosInf PosInf = NaN"
| "js_div PosInf NegInf = NaN"
| "js_div NegInf PosInf = NaN"
| "js_div NegInf NegInf = NaN"
| "js_div NaN b = NaN"
| "js_div a NaN = NaN"

text \<open>Comparisons: every comparison with \<open>NaN\<close> is false.\<close>

fun js_lt :: "jsnum \<Rightarrow> jsnum \<Rightarrow> bool" where
  "js_lt (Finite x) (Finite y) = (x < y)"
| "js_lt (Finite x) PosInf = True"
| "js_lt NegInf (Finite y) = True"
| "js_lt NegInf PosInf = True"
| "js_lt a b = False"

fun js_le :: "jsnum \<Rightarrow> jsnum \<Rightarrow> bool" where
  "js_le (Finite x) (Finite y) = (x \<le> y)"
| "js_le (Finite x) PosInf = True"
| "js_le NegInf (Finite y) = True"
| "js_le NegInf PosInf = True"
| "js_le PosInf PosInf = True"
| "js_le NegInf NegInf = True"
| "js_le a b = False"

definition js_gt :: "jsnum \<Rightarrow> jsnum \<Rightarrow> bool" where
  "js_gt a b = js_lt b a"

text \<open>\<open>!x\<close> on a number: true for zero and for \<open>NaN\<close>.\<close>

fun js_not :: "jsnum \<Rightarrow> bool" where
  "js_not (Finite x) = (x = 0)"
| "js_not NaN = True"
| "js_not PosInf = False"
| "js_not NegInf = False"

text \<open>
  \<open>Math.floor\<close>, \<open>Math.ceil\<close> and \<open>Math.round\<close>; the last one rounds a tie
  upwards, that is \<open>Math.round(x) = floor(x + 0.5)\<close>.
\<close>

fun js_floor :: "jsnum \<Rightarrow> jsnum" where
  "js_floor (Finite x) = Finite (of_int \<lfloor>x\<rfloor>)"
| "js_floor a = a"

fun js_ceil :: "jsnum \<Rightarrow> jsnum" where
  "js_ceil (Finite x) = Finite (of_int \<lceil>x\<rceil>)"
| "js_ceil a = a"

fun js_round :: "jsnum \<Rightarrow> jsnum" where
  "js_round (Finite x) = Finite (of_int \<lfloor>x + 1 / 2\<rfloor>)"
| "js_round a = a"

text \<open>\<open>Math.log2\<close>.\<close>

fun js_log2 :: "jsnum \<Rightarrow> jsnum" where
  "js_log2 (Finite x) = (if x < 0 then NaN else if x = 0 then NegInf else Finite (log 2 x))"
| "js_log2 PosInf = PosInf"
| "js_log2 NegInf = NaN"
| "js_log2 NaN = NaN"

text \<open>\<open>Math.pow(2, y)\<close>, the only use of \<open>Math.pow\<close> in the program.\<close>

fun js_pow2 :: "jsnum \<Rightarrow> jsnum" where
  "js_pow2 (Finite y) = Finite (2 powr y)"
| "js_pow2 PosInf = PosInf"
| "js_pow2 NegInf = Finite 0"
| "js_pow2 NaN = NaN"

text \<open>
  The remainder operator \<open>a % b\<close>: the result has the sign of the dividend
  (\<open>a - b * trunc(a / b)\<close>), unlike the mathematical \<open>mod\<close>.
\<close>

definition trunc :: "real \<Rightarrow> int" where
  "trunc x = (if 0 \<le> x then \<lfloor>x\<rfloor> else \<lceil>x\<rceil>)"

fun js_rem :: "jsnum \<Rightarrow> jsnum \<Rightarrow> jsnum" where
  "js_rem (Finite x) (Finite y) = (if y = 0 then NaN else Finite (x - y * of_int (trunc (x / y))))"
| "js_rem (Finite x) PosInf = Finite x"
| "js_rem (Finite x) NegInf = Finite x"
| "js_rem a b = NaN"

section \<open>Note recognition\<close>

definition NOTE_NAMES :: "string list" where
  "NOTE_NAMES = [''C'', ''C#'', ''D'', ''D#'', ''E'', ''F'', ''F#'', ''G'', ''G#'', ''A'', ''A#'', ''B'']"

text \<open>
  \<open>NOTE_NAMES[i]\<close> for a number \<open>i\<close>: the element when \<open>i\<close> is an integer within
  the array, \<open>undefined\<close> for every other number (negative, fractional, \<open>NaN\<close>,
  infinite).
\<close>

datatype note_value = NoteNull | NoteUndefined | NoteName string

fun note_at :: "jsnum \<Rightarrow> note_value" where
  "note_at (Finite x) =
     (if x = of_int \<lfloor>x\<rfloor> \<and> 0 \<le> x \<and> nat \<lfloor>x\<rfloor> < length NOTE_NAMES
      then NoteName (NOTE_NAMES ! nat \<lfloor>x\<rfloor>) else NoteUndefined)"
| "note_at a = NoteUndefined"

text \<open>The object \<open>{ note, octave, cents }\<close>; the field \<open>note\<close> is called \<open>noteName\<close>
  here, and \<open>None\<close> is an octave of \<open>null\<close>.\<close>

record note_result =
  noteName :: note_value
  octave :: "jsnum option"
  cents :: jsnum

definition no_note :: note_result where
  "no_note = \<lparr>noteName = NoteNull, octave = None, cents = Finite 0\<rparr>"

definition exactHalfStepsFromA4 :: "jsnum \<Rightarrow> jsnum \<Rightarrow> jsnum" where
  "exactHalfStepsFromA4 frequency referenceFrequency =
     js_mul (Finite 12) (js_log2 (js_div frequency referenceFrequency))"

definition halfStepsFromA4 :: "jsnum \<Rightarrow> jsnum \<Rightarrow> jsnum" where
  "halfStepsFromA4 frequency referenceFrequency =
     js_round (js_mul (Finite 12) (js_log2 (js_div frequency referenceFrequency)))"

definition noteFromFrequency :: "jsnum \<Rightarrow> jsnum \<Rightarrow> note_result" where
  "noteFromFrequency frequency referenceFrequency =
     (if js_not frequency \<or> js_le frequency (Finite 0) then
        \<lparr>noteName = NoteNull, octave = None, cents = Finite 0\<rparr>
      else
        let halfSteps = halfStepsFromA4 frequency referenceFrequency;
            exactHalfSteps = exactHalfStepsFromA4 frequency referenceFrequency;
            cents' = js_round (js_mul (js_sub exactHalfSteps halfSteps) (Finite 100));
            noteIndex = js_rem (js_add halfSteps (Finite 57)) (Finite 12);
            octave' = js_floor (js_div (js_add halfSteps (Finite 57)) (Finite 12))
        in \<lparr>noteName = note_at noteIndex, octave = Some octave', cents = cents'\<rparr>)"

text \<open>
  \<open>frequencyFromNote\<close> throws for a name that \<open>indexOf\<close> does not find; the octave is
  an integer, as everywhere in the program. Its parameters \<open>note\<close> and \<open>octave\<close> are
  called \<open>name\<close> and \<open>oct\<close> here, and its default reference frequency 440 is passed
  explicitly where the program omits the argument.
\<close>

datatype error = InvalidNoteName string

fun indexOf :: "'a list \<Rightarrow> 'a \<Rightarrow> int" where
  "indexOf [] a = - 1"
| "indexOf (x # xs) a =
     (if x = a then 0 else let i = indexOf xs a in if i = - 1 then - 1 else i + 1)"

definition frequencyFromNote :: "string \<Rightarrow> int \<Rightarrow> jsnum \<Rightarrow> error + jsnum" where
  "frequencyFromNote name oct referenceFrequency =
     (let noteIndex = indexOf NOTE_NAMES name in
      if noteIndex = - 1 then Inl (InvalidNoteName name)
      else
        let halfSteps = noteIndex + (oct * 12) - 57
        in Inr (js_mul referenceFrequency (js_pow2 (js_div (Finite (of_int halfSteps)) (Finite 12)))))"

text \<open>
  \<open>getInstrumentReferences\<close> builds the whole table on every call, so each of its
  calls of \<open>frequencyFromNote\<close> (with the default reference frequency 440) is
  evaluated and could throw before the lookup. \<open>references[instrument]\<close> finds an own
  property first and a member inherited from \<open>Object.prototype\<close> next; every such
  member is an object or a function, hence truthy, and only a missing property gives
  \<open>null\<close>.
\<close>

record instrument_profile =
  strings :: "string list"
  frequencies :: "jsnum list"

datatype lookup_result = Profile instrument_profile | Inherited string | Null

fun evaluate_all :: "(error + 'a) list \<Rightarrow> error + 'a list" where
  "evaluate_all [] = Inr []"
| "evaluate_all (Inl e # rs) = Inl e"
| "evaluate_all (Inr v # rs) =
     (case evaluate_all rs of Inl e \<Rightarrow> Inl e | Inr vs \<Rightarrow> Inr (v # vs))"

definition object_prototype_members :: "string list" where
  "object_prototype_members =
     [''constructor'', ''hasOwnProperty'', ''isPrototypeOf'', ''propertyIsEnumerable'',
      ''toLocaleString'', ''toString'', ''valueOf'', ''__proto__'', ''__defineGetter__'',
      ''__defineSetter__'', ''__lookupGetter__'', ''__lookupSetter__'']"

definition references :: "error + (string \<times> instrument_profile) list" where
  "references =
     (case evaluate_all
        [frequencyFromNote ''E'' 2 (Finite 440), frequencyFromNote ''A'' 2 (Finite 440),
         frequencyFromNote ''D'' 3 (Finite 440), frequencyFromNote ''G'' 3 (Finite 440),
         frequencyFromNote ''B'' 3 (Finite 440), frequencyFromNote ''E'' 4 (Finite 440)] of
        Inl e \<Rightarrow> Inl e
      | Inr guitar \<Rightarrow>
     (case evaluate_all
        [frequencyFromNote ''E'' 1 (Finite 440), frequencyFromNote ''A'' 1 (Finite 440),
         frequencyFromNote ''D'' 2 (Finite 440), frequencyFromNote ''G'' 2 (Finite 440)] of
        Inl e \<Rightarrow> Inl e
      | Inr bass \<Rightarrow>
     (case evaluate_all
        [frequencyFromNote ''G'' 3 (Finite 440), frequencyFromNote ''D'' 4 (Finite 440),
         frequencyFromNote ''A'' 4 (Finite 440), frequencyFromNote ''E'' 5 (Finite 440)] of
        Inl e \<Rightarrow> Inl e
      | Inr violin \<Rightarrow>
     (case evaluate_all
        [frequencyFromNote ''G'' 4 (Finite 440), frequencyFromNote ''C'' 4 (Finite 440),
         frequencyFromNote ''E'' 4 (Finite 440), frequencyFromNote ''A'' 4 (Finite 440)] of
        Inl e \<Rightarrow> Inl e
      | Inr ukulele \<Rightarrow>
        Inr [(''guitar'',
                \<lparr>strings = [''E2'', ''A2'', ''D3'', ''G3'', ''B3'', ''E4''], frequencies = guitar\<rparr>),
             (''bass'', \<lparr>strings = [''E1'', ''A1'', ''D2'', ''G2''], frequencies = bass\<rparr>),
             (''violin'', \<lparr>strings = [''G3'', ''D4'', ''A4'', ''E5''], frequencies = violin\<rparr>),
             (''ukulele'',
                \<lparr>strings = [''G4'', ''C4'', ''E4'', ''A4''], frequencies = ukulele\<rparr>)]))))"

definition getInstrumentReferences :: "string \<Rightarrow> error + lookup_result" where
  "getInstrumentReferences instrument =
     (case references of
        Inl e \<Rightarrow> Inl e
      | Inr table \<Rightarrow>
          Inr (case map_of table instrument of
                 Some profile \<Rightarrow> Profile profile
               | None \<Rightarrow>
                   if instrument \<in> set object_prototype_members then Inherited instrument
                   else Null))"

text \<open>
  A string label such as \<open>E2\<close> or \<open>C#4\<close> names a note and an octave: the note is the
  label without its last character, the octave is the digit in that place. The program
  never parses a label; the two readers below only serve to state which note a label
  stands for.
\<close>

definition label_note :: "string \<Rightarrow> string" where
  "label_note label = butlast label"

definition label_octave :: "string \<Rightarrow> int" where
  "label_octave label = indexOf ''0123456789'' (last label)"

section \<open>Pitch detection\<close>

definition THRESHOLD :: real where
  "THRESHOLD = 2 / 10"

definition MIN_FREQUENCY :: real where
  "MIN_FREQUENCY = 50"

definition MAX_FREQUENCY :: real where
  "MAX_FREQUENCY = 1500"

text \<open>The first loop and the division after it: the mean of the squared samples.\<close>

definition signalEnergy :: "jsnum list \<Rightarrow> jsnum" where
  "signalEnergy buffer =
     js_div
       (fold (\<lambda>i energy. js_add energy (js_mul (buffer ! i) (buffer ! i)))
          [0..<length buffer] (Finite 0))
       (Finite (of_nat (length buffer)))"

text \<open>The autocorrelation: the inner loop for one lag, and the array of all lags.\<close>

definition correlation :: "jsnum list \<Rightarrow> nat \<Rightarrow> jsnum" where
  "correlation buffer lag =
     fold (\<lambda>i c. js_add c (js_mul (buffer ! i) (buffer ! (i + lag))))
       [0..<length buffer - lag] (Finite 0)"

definition correlations :: "jsnum list \<Rightarrow> jsnum list" where
  "correlations buffer =
     map (\<lambda>lag. js_div (correlation buffer lag) (Finite (of_nat (length buffer - lag))))
       [0..<length buffer]"

text \<open>
  Reading a typed array outside its bounds gives \<open>undefined\<close>, which the comparison
  and the division that receive it convert to \<open>NaN\<close>.
\<close>

definition corr_at :: "jsnum list \<Rightarrow> int \<Rightarrow> jsnum" where
  "corr_at cs p = (if 0 \<le> p \<and> p < int (length cs) then cs ! nat p else NaN)"

text \<open>
  The peak search keeps the pair \<open>(bestPeriod, bestCorrelation)\<close>, starting from
  \<open>(-1, 0)\<close>, over the periods \<open>minPeriod, \<dots>, maxPeriod - 1\<close>.
\<close>

definition peak_step :: "jsnum list \<Rightarrow> int \<Rightarrow> int \<times> jsnum \<Rightarrow> int \<times> jsnum" where
  "peak_step cs period best =
     (if js_gt (corr_at cs period) (snd best) then (period, corr_at cs period) else best)"

definition findPeak :: "jsnum list \<Rightarrow> int \<Rightarrow> int \<Rightarrow> int \<times> jsnum" where
  "findPeak cs minPeriod maxPeriod =
     fold (peak_step cs) [minPeriod..maxPeriod - 1] (- 1, Finite 0)"

text \<open>The parabolic interpolation around the peak, without any test of its denominator.\<close>

definition denominator :: "jsnum list \<Rightarrow> int \<Rightarrow> jsnum" where
  "denominator cs p =
     js_add (js_sub (corr_at cs (p - 1)) (js_mul (Finite 2) (corr_at cs p))) (corr_at cs (p + 1))"

definition peakOffset :: "jsnum list \<Rightarrow> int \<Rightarrow> jsnum" where
  "peakOffset cs p =
     js_div (js_mul (Finite (5 / 10)) (js_sub (corr_at cs (p - 1)) (corr_at cs (p + 1))))
       (denominator cs p)"

text \<open>
  \<open>detectPitch\<close>: the buffer is a \<open>Float32Array\<close>, whose elements may be any number,
  and the sample rate is a finite number.
\<close>

definition detectPitch :: "jsnum list \<Rightarrow> real \<Rightarrow> jsnum" where
  "detectPitch buffer sampleRate =
     (let bufferLength = int (length buffer) in
      if js_lt (signalEnergy buffer) (Finite (1 / 1000)) then Finite (- 1)
      else
        let cs = correlations buffer;
            minPeriod = \<lfloor>sampleRate / MAX_FREQUENCY\<rfloor>;
            maxPeriod = \<lceil>sampleRate / MIN_FREQUENCY\<rceil>;
            (bestPeriod, bestCorrelation) = findPeak cs minPeriod maxPeriod;
            normalizedCorrelation = js_div bestCorrelation (corr_at cs 0)
        in if js_lt normalizedCorrelation (Finite THRESHOLD) then Finite (- 1)
           else
             let refinedPeriod =
                   (if 0 < bestPeriod \<and> bestPeriod < bufferLength - 1
                    then js_add (Finite (of_int bestPeriod)) (peakOffset cs bestPeriod)
                    else Finite (of_int bestPeriod))
             in js_div (Finite sampleRate) refinedPeriod)"

section \<open>Facts about the number model and the note table\<close>

lemma OVERFLOW_lower: "2 ^ 1023 \<le> OVERFLOW"
proof -
  have "(2::real) ^ 970 \<le> 2 ^ 1023" by (rule power_increasing) simp_all
  moreover have "(2::real) ^ 1024 = 2 * 2 ^ 1023" by (simp only: power_Suc [symmetric]) simp
  ultimately show ?thesis by (simp add: OVERFLOW_def)
qed


lemma UNDERFLOW_pos: "0 < UNDERFLOW"
  by (simp add: UNDERFLOW_def)

lemma UNDERFLOW_upper: "UNDERFLOW < 1 / 2 ^ 20"
proof -
  have "(2::real) ^ 20 < 2 ^ 1075" by (rule power_strict_increasing) simp_all
  then show ?thesis by (simp add: UNDERFLOW_def field_simps)
qed

lemma OVERFLOW_moderate: "2 ^ 20 < OVERFLOW"
proof -
  have "(2::real) ^ 20 < 2 ^ 1023" by (rule power_strict_increasing) simp_all
  with OVERFLOW_lower show ?thesis by simp
qed

lemma js_quotient_in_range:
  "UNDERFLOW < \<bar>q\<bar> \<Longrightarrow> \<bar>q\<bar> < OVERFLOW \<Longrightarrow> js_quotient q = Finite q"
  by (auto simp add: js_quotient_def)

lemma js_quotient_zero: "js_quotient 0 = Finite 0"
  using UNDERFLOW_pos OVERFLOW_moderate by (simp add: js_quotient_def)

lemma js_quotient_moderate:
  assumes "1 / 1048576 \<le> \<bar>q\<bar>" and "\<bar>q\<bar> \<le> 1048576"
  shows "js_quotient q = Finite q"
proof -
  have "UNDERFLOW < \<bar>q\<bar>" using assms(1) UNDERFLOW_upper by simp
  moreover have "\<bar>q\<bar> < OVERFLOW" using assms(2) OVERFLOW_moderate by simp
  ultimately show ?thesis by (rule js_quotient_in_range)
qed

lemma js_quotient_overflow: "OVERFLOW \<le> q \<Longrightarrow> js_quotient q = PosInf"
  by (simp add: js_quotient_def)

lemma js_quotient_underflow: "0 \<le> q \<Longrightarrow> q \<le> UNDERFLOW \<Longrightarrow> js_quotient q = Finite 0"
  using OVERFLOW_moderate UNDERFLOW_upper by (simp add: js_quotient_def)

lemma js_quotient_positive:
  assumes "0 < q"
  shows "js_quotient q =
     (if OVERFLOW \<le> q then PosInf else if q \<le> UNDERFLOW then Finite 0 else Finite q)"
proof -
  have "0 < OVERFLOW" using OVERFLOW_moderate by simp
  with assms have "\<not> q \<le> - OVERFLOW" by linarith
  with assms show ?thesis by (simp add: js_quotient_def)
qed

text \<open>
  The half steps from A4 of a positive frequency, by the place of the quotient
  \<open>frequency / referenceFrequency\<close> in the range of the doubles.
\<close>

lemma js_log2_quotient:
  assumes "0 < q"
  shows "js_log2 (js_quotient q) =
     (if OVERFLOW \<le> q then PosInf else if q \<le> UNDERFLOW then NegInf else Finite (log 2 q))"
  using assms by (simp add: js_quotient_positive)

lemma exactHalfStepsFromA4_cases:
  assumes "0 < f" and "0 < R"
  shows "exactHalfStepsFromA4 (Finite f) (Finite R) =
     (if OVERFLOW \<le> f / R then PosInf else if f / R \<le> UNDERFLOW then NegInf
      else Finite (12 * log 2 (f / R)))"
proof -
  have "0 < f / R" using assms by simp
  then have "js_log2 (js_quotient (f / R)) =
     (if OVERFLOW \<le> f / R then PosInf else if f / R \<le> UNDERFLOW then NegInf
      else Finite (log 2 (f / R)))"
    by (rule js_log2_quotient)
  moreover have "js_div (Finite f) (Finite R) = js_quotient (f / R)"
    using assms by simp
  ultimately show ?thesis
    by (simp add: exactHalfStepsFromA4_def)
qed

lemma halfStepsFromA4_cases:
  assumes "0 < f" and "0 < R"
  shows "halfStepsFromA4 (Finite f) (Finite R) =
     (if OVERFLOW \<le> f / R then PosInf else if f / R \<le> UNDERFLOW then NegInf
      else Finite (of_int \<lfloor>12 * log 2 (f / R) + 1 / 2\<rfloor>))"
proof -
  have "halfStepsFromA4 (Finite f) (Finite R) = js_round (exactHalfStepsFromA4 (Finite f) (Finite R))"
    by (simp add: halfStepsFromA4_def exactHalfStepsFromA4_def)
  then show ?thesis
    using assms by (simp add: exactHalfStepsFromA4_cases)
qed

lemma exactHalfStepsFromA4_finite:
  "0 < f \<Longrightarrow> 0 < R \<Longrightarrow> UNDERFLOW < f / R \<Longrightarrow> f / R < OVERFLOW \<Longrightarrow>
   exactHalfStepsFromA4 (Finite f) (Finite R) = Finite (12 * log 2 (f / R))"
  by (simp add: exactHalfStepsFromA4_cases)

lemma halfStepsFromA4_finite:
  "0 < f \<Longrightarrow> 0 < R \<Longrightarrow> UNDERFLOW < f / R \<Longrightarrow> f / R < OVERFLOW \<Longrightarrow>
   halfStepsFromA4 (Finite f) (Finite R) = Finite (of_int \<lfloor>12 * log 2 (f / R) + 1 / 2\<rfloor>)"
  by (simp add: halfStepsFromA4_cases)

lemma noteFromFrequency_positive:
  assumes "0 < f"
  shows "noteFromFrequency (Finite f) R =
     \<lparr>noteName = note_at (js_rem (js_add (halfStepsFromA4 (Finite f) R) (Finite 57)) (Finite 12)),
      octave = Some (js_floor (js_div (js_add (halfStepsFromA4 (Finite f) R) (Finite 57)) (Finite 12))),
      cents = js_round (js_mul (js_sub (exactHalfStepsFromA4 (Finite f) R) (halfStepsFromA4 (Finite f) R))
                 (Finite 100))\<rparr>"
  using assms by (simp add: noteFromFrequency_def Let_def)













lemma length_NOTE_NAMES: "length NOTE_NAMES = 12"
  by (simp add: NOTE_NAMES_def)


lemma indexOf_names:
  "indexOf NOTE_NAMES ''C'' = 0" "indexOf NOTE_NAMES ''D'' = 2" "indexOf NOTE_NAMES ''E'' = 4"
  "indexOf NOTE_NAMES ''G'' = 7" "indexOf NOTE_NAMES ''A'' = 9" "indexOf NOTE_NAMES ''B'' = 11"
  by (simp_all add: NOTE_NAMES_def)

lemma frequencyFromNote_found:
  "indexOf NOTE_NAMES name \<noteq> - 1 \<Longrightarrow>
   frequencyFromNote name oct R =
     Inr (js_mul R (js_pow2 (js_div (Finite (of_int (indexOf NOTE_NAMES name + oct * 12 - 57)))
                      (Finite 12))))"
  by (simp add: frequencyFromNote_def Let_def)


text \<open>A quotient of an integer by 12 is zero or at least a twelfth, so it cannot underflow.\<close>

lemma js_quotient_twelfth:
  assumes "\<bar>of_int n / 12\<bar> < OVERFLOW"
  shows "js_quotient (of_int n / 12) = Finite (of_int n / 12)"
proof (cases "n = 0")
  case True
  then show ?thesis by (simp add: js_quotient_zero)
next
  case False
  then have "1 \<le> \<bar>n\<bar>" by simp
  then have "1 \<le> \<bar>real_of_int n\<bar>" by (metis of_int_1_le_iff of_int_abs)
  then have "1 / 12 \<le> \<bar>real_of_int n / 12\<bar>" by simp
  moreover have "UNDERFLOW < 1 / 12" using UNDERFLOW_upper by simp
  ultimately have "UNDERFLOW < \<bar>real_of_int n / 12\<bar>" by linarith
  then show ?thesis using assms by (rule js_quotient_in_range)
qed


section \<open>The note mapper\<close>

text \<open>
  C3. For every positive reference frequency \<open>R\<close>, \<open>noteFromFrequency(R, R)\<close> is the
  note A of octave 4 with 0 cents.
\<close>

theorem noteFromFrequency_reference:
  assumes "0 < R"
  shows "noteFromFrequency (Finite R) (Finite R) =
           \<lparr>noteName = NoteName ''A'', octave = Some (Finite 4), cents = Finite 0\<rparr>"
  using assms
  by (simp add: noteFromFrequency_def halfStepsFromA4_def exactHalfStepsFromA4_def js_sub_def
      trunc_def NOTE_NAMES_def Let_def js_quotient_moderate)

theorem noteFromFrequency_reference_witness:
  "(0::real) < 432 \<and>
   noteFromFrequency (Finite 432) (Finite 432) =
     \<lparr>noteName = NoteName ''A'', octave = Some (Finite 4), cents = Finite 0\<rparr>"
  using noteFromFrequency_reference [of 432] by simp

text \<open>
  The round trip through \<open>frequencyFromNote\<close> and back gives the note, the octave and
  0 cents for every recognized name and every octave from 0 to 1000.
\<close>

lemma powr_in_range:
  assumes "- 20 \<le> e" and "e \<le> 1000"
  shows "UNDERFLOW < 2 powr e" "2 powr e < OVERFLOW"
proof -
  have "(2::real) powr (- 20) \<le> 2 powr e" by (rule powr_mono) (use assms in simp_all)
  moreover have "(2::real) powr (- 20) = 1 / 2 ^ 20" by (simp add: powr_minus_divide)
  ultimately show "UNDERFLOW < 2 powr e" using UNDERFLOW_upper by simp
  have "(2::real) powr e \<le> 2 powr (real (1000::nat))" by (rule powr_mono) (use assms in simp_all)
  also have "\<dots> = 2 ^ (1000::nat)" by (rule powr_realpow) simp
  also have "\<dots> < 2 ^ 1023" by (rule power_strict_increasing) simp_all
  also have "\<dots> \<le> OVERFLOW" by (rule OVERFLOW_lower)
  finally show "2 powr e < OVERFLOW" .
qed

lemma roundtrip_nonneg:
  assumes i: "i < 12" and o: "0 \<le> oct" "oct \<le> 1000" and r: "0 < r"
  shows "noteFromFrequency (Finite (r * 2 powr ((real i + 12 * of_int oct - 57) / 12))) (Finite r) =
     \<lparr>noteName = NoteName (NOTE_NAMES ! i), octave = Some (Finite (of_int oct)), cents = Finite 0\<rparr>"
proof -
  define n :: int where "n = int i + 12 * oct - 57"
  define f where "f = r * 2 powr (of_int n / 12)"
  have fpos: "0 < f" using r by (simp add: f_def)
  have ratio: "f / r = 2 powr (of_int n / 12)" using r by (simp add: f_def)
  have e: "- 20 \<le> real_of_int n / 12" "real_of_int n / 12 \<le> 1000"
    using i o by (simp_all add: n_def)
  have range: "UNDERFLOW < f / r" "f / r < OVERFLOW"
    unfolding ratio using e by (rule powr_in_range)+
  have steps: "12 * log 2 (f / r) = of_int n" by (simp add: ratio)
  have hs: "halfStepsFromA4 (Finite f) (Finite r) = Finite (of_int n)"
    using fpos r range steps by (simp add: halfStepsFromA4_finite)
  have ex: "exactHalfStepsFromA4 (Finite f) (Finite r) = Finite (of_int n)"
    using fpos r range steps by (simp add: exactHalfStepsFromA4_finite)
  have fl: "\<lfloor>(real i + 12 * real_of_int oct) / 12\<rfloor> = oct"
    using i by (simp add: floor_eq_iff)
  have nonneg: "0 \<le> (real i + 12 * real_of_int oct) / 12" using o by simp
  have n57: "real_of_int n + 57 = real i + 12 * real_of_int oct" by (simp add: n_def)
  have "real i + 12 * real_of_int oct = of_int (int i + 12 * oct)" by simp
  moreover have "\<bar>real_of_int (int i + 12 * oct) / 12\<bar> < OVERFLOW"
  proof -
    have "\<bar>real_of_int (int i + 12 * oct) / 12\<bar> \<le> 2 ^ 20" using i o by simp
    with OVERFLOW_moderate show ?thesis by linarith
  qed
  ultimately have q: "js_quotient ((real i + 12 * real_of_int oct) / 12)
      = Finite ((real i + 12 * real_of_int oct) / 12)"
    using js_quotient_twelfth [of "int i + 12 * oct"] by simp
  have rem: "js_rem (Finite (real_of_int n + 57)) (Finite 12) = Finite (real i)"
    using fl nonneg by (simp add: n57 trunc_def)
  have oc: "js_floor (js_div (Finite (real_of_int n + 57)) (Finite 12)) = Finite (of_int oct)"
    using fl by (simp add: n57 q)
  have na: "note_at (Finite (real i)) = NoteName (NOTE_NAMES ! i)"
    using i by (simp add: length_NOTE_NAMES)
  have "noteFromFrequency (Finite f) (Finite r) =
     \<lparr>noteName = NoteName (NOTE_NAMES ! i), octave = Some (Finite (of_int oct)), cents = Finite 0\<rparr>"
    using fpos rem oc na by (simp add: noteFromFrequency_positive hs ex js_sub_def)
  then show ?thesis by (simp add: f_def n_def)
qed

lemma log2_one_32nd: "log 2 (1 / 32) = - 5"
proof -
  have "log 2 (2 powr (- 5)) = - 5" by simp
  moreover have "(2::real) powr (- 5) = 1 / 32" by (simp add: powr_minus_divide)
  ultimately show ?thesis by simp
qed

text \<open>
  C4. The round trip \<open>noteFromFrequency(frequencyFromNote(noteName, octave, R), R)\<close> at
  the note A of octave -1 and \<open>R = 440\<close>: the frequency is 13.75 Hz, 60 half steps
  below A4, and \<open>(-60 + 57) % 12\<close> is -3, so the note read from \<open>NOTE_NAMES\<close> is
  \<open>undefined\<close> and not A; the octave and the cents come back as -1 and 0.
\<close>

theorem roundtrip_negative_octave:
  "frequencyFromNote ''A'' (- 1) (Finite 440) = Inr (Finite (55 / 4)) \<and>
   noteFromFrequency (Finite (55 / 4)) (Finite 440) =
     \<lparr>noteName = NoteUndefined, octave = Some (Finite (- 1)), cents = Finite 0\<rparr>"
proof -
  have p: "(2::real) powr (- 5) = 1 / 32"
    by (simp add: powr_minus_divide)
  have c: "\<lceil>- (1 / 4) :: real\<rceil> = 0"
    by (simp add: ceiling_eq_iff)
  have r: "UNDERFLOW < (55 / 4) / (440 :: real)" "(55 / 4) / (440 :: real) < OVERFLOW"
    using UNDERFLOW_upper OVERFLOW_moderate by simp_all
  have "frequencyFromNote ''A'' (- 1) (Finite 440) = Inr (Finite (55 / 4))"
    using p by (simp add: frequencyFromNote_found indexOf_names js_quotient_moderate)
  moreover have "noteFromFrequency (Finite (55 / 4)) (Finite 440) =
     \<lparr>noteName = NoteUndefined, octave = Some (Finite (- 1)), cents = Finite 0\<rparr>"
    using c log2_one_32nd r
    by (simp add: noteFromFrequency_positive halfStepsFromA4_finite exactHalfStepsFromA4_finite
        js_sub_def trunc_def js_quotient_moderate)
  ultimately show ?thesis by simp
qed


text \<open>The same happens by underflow, for the smallest positive double and 440.\<close>

lemma cents_underflow:
  "cents (noteFromFrequency (Finite (1 / 2 ^ 1074)) (Finite 440)) = NaN"
proof -
  have "(1::real) / 2 ^ 1074 / 440 \<le> 1 / 2 ^ 1074 / 2" by simp
  also have "\<dots> = 1 / 2 ^ 1075" by simp
  finally have under: "(1::real) / 2 ^ 1074 / 440 \<le> UNDERFLOW" by (simp only: UNDERFLOW_def)
  have "UNDERFLOW < OVERFLOW" using UNDERFLOW_upper OVERFLOW_moderate by simp
  with under have nover: "\<not> OVERFLOW \<le> (1::real) / 2 ^ 1074 / 440" by linarith
  have pos: "(0::real) < 1 / 2 ^ 1074" "(0::real) < 440" by simp_all
  have "exactHalfStepsFromA4 (Finite (1 / 2 ^ 1074)) (Finite 440) = NegInf"
    using under nover by (simp only: exactHalfStepsFromA4_cases [OF pos] if_True if_False)
  moreover have "halfStepsFromA4 (Finite (1 / 2 ^ 1074)) (Finite 440) = NegInf"
    using under nover by (simp only: halfStepsFromA4_cases [OF pos] if_True if_False)
  ultimately show ?thesis
    by (simp only: noteFromFrequency_positive [OF pos(1)]) (simp add: js_sub_def)
qed





text \<open>
  C6, as stated: the no-note result exactly when the frequency is at most 0. It fails at
  the frequency \<open>NaN\<close>, which the test \<open>!frequency\<close> rejects and which is not at most 0.
\<close>

theorem no_note_counterexample:
  "noteFromFrequency NaN (Finite 440) = no_note \<and> \<not> js_le NaN (Finite 0)"
  by (simp add: noteFromFrequency_def no_note_def)

text \<open>
  C6, amended. \<open>noteFromFrequency\<close> returns the no-note result exactly when the
  frequency is \<open>NaN\<close> or at most 0; in particular the no-pitch value -1 of the
  estimator gives the no-note result.
\<close>

theorem no_note_iff:
  "(noteFromFrequency frequency R = no_note \<longleftrightarrow> frequency = NaN \<or> js_le frequency (Finite 0)) \<and>
   noteFromFrequency (Finite (- 1)) R = no_note"
  by (cases frequency) (auto simp add: noteFromFrequency_def no_note_def Let_def)

theorem no_note_iff_witness:
  "noteFromFrequency (Finite 0) (Finite 440) = no_note \<and>
   noteFromFrequency (Finite 440) (Finite 440) \<noteq> no_note \<and>
   noteFromFrequency (Finite (- 1)) (Finite 440) = no_note"
  using no_note_iff [of "Finite 0" "Finite 440"] no_note_iff [of "Finite 440" "Finite 440"]
  by simp



text \<open>
  C9. For a fixed positive reference frequency the rounded number of half steps from A4
  computed by \<open>noteFromFrequency\<close> never decreases when the frequency increases; it is
  an integer whenever the quotient of the frequency by the reference frequency is a
  finite positive double, \<open>-Infinity\<close> when the quotient underflows and \<open>Infinity\<close> when it
  overflows.
\<close>

theorem halfStepsFromA4_mono:
  assumes "0 < R" and "0 < f1" and "f1 \<le> f2"
  shows "js_le (halfStepsFromA4 (Finite f1) (Finite R)) (halfStepsFromA4 (Finite f2) (Finite R)) \<and>
     (UNDERFLOW < f1 / R \<and> f2 / R < OVERFLOW \<longrightarrow>
        (\<exists>n1 n2. halfStepsFromA4 (Finite f1) (Finite R) = Finite (of_int n1) \<and>
                 halfStepsFromA4 (Finite f2) (Finite R) = Finite (of_int n2) \<and> n1 \<le> n2))"
proof -
  from assms have f2: "0 < f2" by simp
  have q: "f1 / R \<le> f2 / R"
    using assms by (simp add: divide_right_mono)
  have q1: "0 < f1 / R" using assms by simp
  then have "log 2 (f1 / R) \<le> log 2 (f2 / R)" using q by simp
  then have fl: "\<lfloor>12 * log 2 (f1 / R) + 1 / 2\<rfloor> \<le> \<lfloor>12 * log 2 (f2 / R) + 1 / 2\<rfloor>"
    by (intro floor_mono) simp
  have lt: "UNDERFLOW < OVERFLOW" using UNDERFLOW_upper OVERFLOW_moderate by simp
  have h1: "halfStepsFromA4 (Finite f1) (Finite R) =
     (if OVERFLOW \<le> f1 / R then PosInf else if f1 / R \<le> UNDERFLOW then NegInf
      else Finite (of_int \<lfloor>12 * log 2 (f1 / R) + 1 / 2\<rfloor>))"
    using assms by (simp only: halfStepsFromA4_cases)
  have h2: "halfStepsFromA4 (Finite f2) (Finite R) =
     (if OVERFLOW \<le> f2 / R then PosInf else if f2 / R \<le> UNDERFLOW then NegInf
      else Finite (of_int \<lfloor>12 * log 2 (f2 / R) + 1 / 2\<rfloor>))"
    using assms f2 by (simp only: halfStepsFromA4_cases)
  have "js_le (halfStepsFromA4 (Finite f1) (Finite R)) (halfStepsFromA4 (Finite f2) (Finite R))"
    unfolding h1 h2 using q lt fl by auto
  moreover have "\<exists>n1 n2. halfStepsFromA4 (Finite f1) (Finite R) = Finite (of_int n1) \<and>
      halfStepsFromA4 (Finite f2) (Finite R) = Finite (of_int n2) \<and> n1 \<le> n2"
    if "UNDERFLOW < f1 / R \<and> f2 / R < OVERFLOW"
    unfolding h1 h2 using that q fl by auto
  ultimately show ?thesis by blast
qed

theorem halfStepsFromA4_mono_witness:
  "(0::real) < 440 \<and> (0::real) < 220 \<and> (220::real) \<le> 880 \<and>
   UNDERFLOW < 220 / 440 \<and> 880 / 440 < OVERFLOW \<and>
   halfStepsFromA4 (Finite 220) (Finite 440) = Finite (- 12) \<and>
   halfStepsFromA4 (Finite 880) (Finite 440) = Finite 12 \<and>
   js_le (halfStepsFromA4 (Finite 220) (Finite 440)) (halfStepsFromA4 (Finite 880) (Finite 440))"
proof -
  have l: "log 2 (1 / 2) = - 1"
    using log_divide [of 2 1 2] by simp
  have r: "UNDERFLOW < (220::real) / 440" "(220::real) / 440 < OVERFLOW"
    "UNDERFLOW < (880::real) / 440" "(880::real) / 440 < OVERFLOW"
    using UNDERFLOW_upper OVERFLOW_moderate by simp_all
  have "halfStepsFromA4 (Finite 220) (Finite 440) = Finite (- 12)"
    using l r by (simp add: halfStepsFromA4_finite)
  moreover have "halfStepsFromA4 (Finite 880) (Finite 440) = Finite 12"
    using r by (simp add: halfStepsFromA4_finite)
  ultimately show ?thesis
    using halfStepsFromA4_mono [of 440 220 880] r by simp
qed

section \<open>The instrument table\<close>

lemmas lookup_defs = getInstrumentReferences_def references_def object_prototype_members_def

text \<open>
  \<open>getInstrumentReferences("guitar")\<close> is a profile with exactly the 6 strings E2, A2,
  D3, G3, B3, E4 in that order, and \<open>getInstrumentReferences("unknown")\<close> is \<open>null\<close>, not
  an error; so is every identifier that is neither one of the four instruments nor the
  name of a member of \<open>Object.prototype\<close>.
\<close>

lemma getInstrumentReferences_guitar_unknown:
  "(\<exists>p. getInstrumentReferences ''guitar'' = Inr (Profile p) \<and>
        strings p = [''E2'', ''A2'', ''D3'', ''G3'', ''B3'', ''E4''] \<and> length (strings p) = 6) \<and>
   getInstrumentReferences ''unknown'' = Inr Null"
  by (simp add: lookup_defs frequencyFromNote_found indexOf_names)

lemma getInstrumentReferences_null:
  assumes "instrument \<notin> set [''guitar'', ''bass'', ''violin'', ''ukulele'']"
    and "instrument \<notin> set object_prototype_members"
  shows "getInstrumentReferences instrument = Inr Null"
  using assms by (simp add: getInstrumentReferences_def references_def
      frequencyFromNote_found indexOf_names)

text \<open>
  C8. \<open>getInstrumentReferences\<close> at the identifier \<open>toString\<close>, which names none of the
  four instruments: \<open>references[instrument]\<close> finds the member that the table inherits
  from \<open>Object.prototype\<close>, a function, and \<open>|| null\<close> lets it through, so the result is
  that function and not \<open>null\<close>.
\<close>

theorem getInstrumentReferences_inherited:
  "''toString'' \<notin> set [''guitar'', ''bass'', ''violin'', ''ukulele''] \<and>
   getInstrumentReferences ''toString'' = Inr (Inherited ''toString'') \<and>
   getInstrumentReferences ''toString'' \<noteq> Inr Null"
  by (simp add: lookup_defs frequencyFromNote_found indexOf_names)

text \<open>
  C10. For each of the four instruments the frequencies of the profile are those of
  \<open>frequencyFromNote\<close> at the note and the octave of the string of the same position,
  with the reference frequency 440; \<open>getInstrumentReferences\<close> has no reference
  frequency among its parameters.
\<close>

theorem getInstrumentReferences_frequencies:
  assumes "instrument \<in> set [''guitar'', ''bass'', ''violin'', ''ukulele'']"
  shows "\<exists>p. getInstrumentReferences instrument = Inr (Profile p) \<and>
     map (\<lambda>label. frequencyFromNote (label_note label) (label_octave label) (Finite 440))
       (strings p) = map Inr (frequencies p)"
proof -
  from assms have "instrument = ''guitar'' \<or> instrument = ''bass'' \<or> instrument = ''violin''
      \<or> instrument = ''ukulele''"
    by simp
  then show ?thesis
    by (elim disjE)
      (simp_all add: lookup_defs frequencyFromNote_found indexOf_names label_note_def
        label_octave_def)
qed

theorem getInstrumentReferences_frequencies_witness:
  "''violin'' \<in> set [''guitar'', ''bass'', ''violin'', ''ukulele''] \<and>
   (\<exists>p. getInstrumentReferences ''violin'' = Inr (Profile p) \<and>
      strings p = [''G3'', ''D4'', ''A4'', ''E5''] \<and>
      frequencies p ! 2 = Finite 440 \<and>
      map (\<lambda>label. frequencyFromNote (label_note label) (label_octave label) (Finite 440))
        (strings p) = map Inr (frequencies p))"
proof -
  have v: "''violin'' \<in> set [''guitar'', ''bass'', ''violin'', ''ukulele'']" by simp
  have "\<exists>p. getInstrumentReferences ''violin'' = Inr (Profile p) \<and>
      strings p = [''G3'', ''D4'', ''A4'', ''E5''] \<and> frequencies p ! 2 = Finite 440"
    by (simp add: lookup_defs frequencyFromNote_found indexOf_names js_quotient_zero)
  with getInstrumentReferences_frequencies [OF v] v show ?thesis by auto
qed

section \<open>The pitch estimator\<close>

lemma peak_step_empty: "peak_step [] p s = s"
  by (auto simp add: peak_step_def corr_at_def js_gt_def)

lemma fold_peak_step_empty: "fold (peak_step []) ps s = s"
  by (induction ps) (simp_all add: peak_step_empty)

text \<open>
  An empty window: the energy is \<open>0 / 0\<close>, the energy test does not fire, no period has a
  correlation, the normalized correlation is \<open>NaN\<close> again, and the result is the sample
  rate divided by the initial \<open>bestPeriod\<close> of -1.
\<close>

lemma detectPitch_empty: "detectPitch [] sampleRate = js_div (Finite sampleRate) (Finite (- 1))"
  by (simp add: detectPitch_def signalEnergy_def correlations_def findPeak_def
      fold_peak_step_empty corr_at_def Let_def)

text \<open>The energy test, and the energy of a window of finite samples.\<close>

lemma detectPitch_energy_gate:
  "js_lt (signalEnergy buffer) (Finite (1 / 1000)) \<Longrightarrow> detectPitch buffer sampleRate = Finite (- 1)"
  by (simp add: detectPitch_def)

lemma fold_squares:
  "n \<le> length xs \<Longrightarrow>
   fold (\<lambda>i energy. js_add energy (js_mul (map Finite xs ! i) (map Finite xs ! i))) [0..<n] (Finite a)
     = Finite (a + (\<Sum>i<n. xs ! i * xs ! i))"
  by (induction n) simp_all

lemma signalEnergy_finite:
  "signalEnergy (map Finite xs) = js_div (Finite (\<Sum>x\<leftarrow>xs. x * x)) (Finite (real (length xs)))"
proof -
  have "(\<Sum>x\<leftarrow>xs. x * x) = (\<Sum>i<length xs. xs ! i * xs ! i)"
    by (simp add: sum_list_sum_nth atLeast0LessThan)
  then show ?thesis
    by (simp add: signalEnergy_def fold_squares)
qed

lemma js_quotient_small:
  assumes "0 \<le> q" and "q < 1 / 1000"
  shows "js_lt (js_quotient q) (Finite (1 / 1000))"
proof -
  have "1 / 1000 < OVERFLOW" using OVERFLOW_moderate by simp
  with assms have "\<not> OVERFLOW \<le> q" "\<not> q \<le> - OVERFLOW" by linarith+
  with assms show ?thesis by (simp add: js_quotient_def)
qed

lemma detectPitch_low_energy:
  assumes "xs \<noteq> []" and "(\<Sum>x\<leftarrow>xs. x * x) / real (length xs) < 1 / 1000"
  shows "detectPitch (map Finite xs) sampleRate = Finite (- 1)"
proof -
  have "0 \<le> (\<Sum>x\<leftarrow>xs. x * x)" by (rule sum_list_nonneg) auto
  then have "0 \<le> (\<Sum>x\<leftarrow>xs. x * x) / real (length xs)" by simp
  then have "js_lt (js_quotient ((\<Sum>x\<leftarrow>xs. x * x) / real (length xs))) (Finite (1 / 1000))"
    using assms(2) by (rule js_quotient_small)
  then have "js_lt (signalEnergy (map Finite xs)) (Finite (1 / 1000))"
    using assms(1) by (simp add: signalEnergy_finite)
  then show ?thesis by (rule detectPitch_energy_gate)
qed

lemma all_zero_map:
  "\<forall>x\<in>set buffer. x = Finite 0 \<Longrightarrow> buffer = map Finite (replicate (length buffer) 0)"
  by (induction buffer) simp_all

lemma detectPitch_all_zero:
  assumes "buffer \<noteq> []" and "\<forall>x\<in>set buffer. x = Finite 0"
  shows "detectPitch buffer sampleRate = Finite (- 1)"
proof -
  define n where "n = length buffer"
  have b: "buffer = map Finite (replicate n 0)" and n: "0 < n"
    using assms all_zero_map [of buffer] by (simp_all add: n_def)
  have "(\<Sum>x\<leftarrow>replicate n (0::real). x * x) = 0"
    by (induction n) simp_all
  moreover have "(\<Sum>x\<leftarrow>replicate n (0::real). x * x) / real (length (replicate n (0::real))) < 1 / 1000"
    using calculation by simp
  ultimately have "detectPitch (map Finite (replicate n 0)) sampleRate = Finite (- 1)"
    using n by (intro detectPitch_low_energy) simp_all
  then show ?thesis using b by simp
qed

text \<open>
  C1. \<open>detectPitch\<close> on the empty window at 44100 Hz: the energy is \<open>NaN\<close>, which is not
  below 0.001, and the result is -44100, not the no-pitch value -1.
\<close>

theorem detectPitch_empty_window:
  "signalEnergy [] = NaN \<and> \<not> js_lt (signalEnergy []) (Finite (1 / 1000)) \<and>
   detectPitch [] 44100 = Finite (- 44100) \<and> detectPitch [] 44100 \<noteq> Finite (- 1)"
  by (simp add: detectPitch_empty js_quotient_moderate) (simp add: signalEnergy_def)

text \<open>When both tests pass and the peak lies inside the window, the result is interpolated.\<close>

lemma detectPitch_interpolated:
  assumes "\<not> js_lt (signalEnergy buffer) (Finite (1 / 1000))"
    and "findPeak (correlations buffer) \<lfloor>sampleRate / MAX_FREQUENCY\<rfloor>
           \<lceil>sampleRate / MIN_FREQUENCY\<rceil> = (bestPeriod, bestCorrelation)"
    and "\<not> js_lt (js_div bestCorrelation (corr_at (correlations buffer) 0)) (Finite THRESHOLD)"
    and "0 < bestPeriod" and "bestPeriod < int (length buffer) - 1"
  shows "detectPitch buffer sampleRate =
           js_div (Finite sampleRate)
             (js_add (Finite (of_int bestPeriod)) (peakOffset (correlations buffer) bestPeriod))"
  using assms by (simp add: detectPitch_def Let_def)

text \<open>
  The interpolation has no test of its denominator. When the denominator
  \<open>leftCorr - 2 * centerCorr + rightCorr\<close> is zero, the offset is
  \<open>0.5 * (leftCorr - rightCorr) / 0\<close>: \<open>NaN\<close> when \<open>leftCorr\<close> equals \<open>rightCorr\<close> and an
  infinity otherwise, and the result is \<open>NaN\<close> in the first case and 0 in the second.
\<close>

lemma denominator_zero_finite:
  assumes "js_add (js_sub l c) r = Finite 0"
  shows "\<exists>x z. l = Finite x \<and> r = Finite z"
  using assms by (cases l; cases c; cases r) (simp_all add: js_sub_def)

lemma detectPitch_zero_denominator:
  assumes energy: "\<not> js_lt (signalEnergy buffer) (Finite (1 / 1000))"
    and peak: "findPeak (correlations buffer) \<lfloor>sampleRate / MAX_FREQUENCY\<rfloor>
                 \<lceil>sampleRate / MIN_FREQUENCY\<rceil> = (bestPeriod, bestCorrelation)"
    and clarity: "\<not> js_lt (js_div bestCorrelation (corr_at (correlations buffer) 0))
                      (Finite THRESHOLD)"
    and inside: "0 < bestPeriod" "bestPeriod < int (length buffer) - 1"
    and zero: "denominator (correlations buffer) bestPeriod = Finite 0"
  shows "detectPitch buffer sampleRate =
           (if corr_at (correlations buffer) (bestPeriod - 1)
                 = corr_at (correlations buffer) (bestPeriod + 1)
            then NaN else Finite 0)"
proof -
  define cs where "cs = correlations buffer"
  from zero obtain x z where l: "corr_at cs (bestPeriod - 1) = Finite x"
    and r: "corr_at cs (bestPeriod + 1) = Finite z"
    unfolding denominator_def cs_def [symmetric] using denominator_zero_finite by blast
  have off: "peakOffset cs bestPeriod =
      (if x = z then NaN else if z < x then PosInf else NegInf)"
    using zero by (simp add: peakOffset_def cs_def [symmetric] l r js_sub_def)
  have "detectPitch buffer sampleRate =
      js_div (Finite sampleRate) (js_add (Finite (of_int bestPeriod)) (peakOffset cs bestPeriod))"
    unfolding cs_def using energy peak clarity inside by (rule detectPitch_interpolated)
  then show ?thesis
    by (simp add: off cs_def [symmetric] l r)
qed

text \<open>
  A constant window: every correlation is the square of the sample, the first lag of the
  search range is the peak, and the three correlations around it are equal.
\<close>

lemma fold_products_constant:
  "m + lag \<le> n \<Longrightarrow>
   fold (\<lambda>i c. js_add c (js_mul (replicate n (Finite a) ! i) (replicate n (Finite a) ! (i + lag))))
     [0..<m] (Finite s) = Finite (s + real m * (a * a))"
  by (induction m) (simp_all add: algebra_simps)

lemma correlation_constant:
  "lag \<le> n \<Longrightarrow> correlation (replicate n (Finite a)) lag = Finite (real (n - lag) * (a * a))"
  by (simp add: correlation_def fold_products_constant)

lemma js_quotient_square:
  assumes "1 / 1000 \<le> a * a" and "a * a < OVERFLOW"
  shows "js_quotient (a * a) = Finite (a * a)"
proof -
  have "UNDERFLOW < 1 / 1000" using UNDERFLOW_upper by simp
  with assms(1) have "UNDERFLOW < \<bar>a * a\<bar>" by simp
  moreover have "\<bar>a * a\<bar> < OVERFLOW" using assms by simp
  ultimately show ?thesis by (rule js_quotient_in_range)
qed

lemma correlations_constant:
  assumes "1 / 1000 \<le> a * a" and "a * a < OVERFLOW"
  shows "correlations (replicate n (Finite a)) = replicate n (Finite (a * a))"
  by (rule nth_equalityI)
    (simp_all add: correlations_def correlation_constant js_quotient_square [OF assms])

lemma corr_at_constant:
  "corr_at (replicate n (Finite v)) p = (if 0 \<le> p \<and> p < int n then Finite v else NaN)"
  by (auto simp add: corr_at_def)

lemma fold_peak_step_constant:
  "fold (peak_step (replicate n (Finite v))) ps (m, Finite v) = (m, Finite v)"
  by (induction ps) (simp_all add: peak_step_def corr_at_constant js_gt_def)

lemma findPeak_constant:
  assumes "0 < v" and "0 \<le> m" and "m < int n" and "m < M"
  shows "findPeak (replicate n (Finite v)) m M = (m, Finite v)"
proof -
  have "[m..M - 1] = m # [m + 1..M - 1]"
    using assms by (simp add: upto_rec1)
  then show ?thesis
    using assms
    by (simp add: findPeak_def fold_peak_step_constant peak_step_def corr_at_constant js_gt_def)
qed

lemma signalEnergy_constant:
  assumes "0 < n" and "1 / 1000 \<le> a * a" and "a * a < OVERFLOW"
  shows "signalEnergy (replicate n (Finite a)) = Finite (a * a)"
proof -
  have "(\<Sum>x\<leftarrow>replicate n a. x * x) = real n * (a * a)"
    by (induction n) (simp_all add: algebra_simps)
  then have "signalEnergy (map Finite (replicate n a)) = Finite (a * a)"
    using assms(1) js_quotient_square [OF assms(2,3)] by (subst signalEnergy_finite) simp
  then show ?thesis by simp
qed

lemma findPeak_constant_window:
  assumes "1 / 1000 \<le> a * a" and "a * a < OVERFLOW"
    and "0 < \<lfloor>sampleRate / MAX_FREQUENCY\<rfloor>" and "\<lfloor>sampleRate / MAX_FREQUENCY\<rfloor> < int n - 1"
    and "\<lfloor>sampleRate / MAX_FREQUENCY\<rfloor> < \<lceil>sampleRate / MIN_FREQUENCY\<rceil>"
  shows "findPeak (correlations (replicate n (Finite a))) \<lfloor>sampleRate / MAX_FREQUENCY\<rfloor>
           \<lceil>sampleRate / MIN_FREQUENCY\<rceil> = (\<lfloor>sampleRate / MAX_FREQUENCY\<rfloor>, Finite (a * a))"
  unfolding correlations_constant [OF assms(1,2)] using assms by (intro findPeak_constant) simp_all

lemma detectPitch_constant_window:
  assumes loud: "1 / 1000 \<le> a * a" "a * a < OVERFLOW"
    and lag: "0 < \<lfloor>sampleRate / MAX_FREQUENCY\<rfloor>" "\<lfloor>sampleRate / MAX_FREQUENCY\<rfloor> < int n - 1"
      "\<lfloor>sampleRate / MAX_FREQUENCY\<rfloor> < \<lceil>sampleRate / MIN_FREQUENCY\<rceil>"
  shows "detectPitch (replicate n (Finite a)) sampleRate = NaN"
proof -
  define m where "m = \<lfloor>sampleRate / MAX_FREQUENCY\<rfloor>"
  have n: "0 < n" using lag by linarith
  have v: "0 < a * a" using loud by simp
  have cs: "correlations (replicate n (Finite a)) = replicate n (Finite (a * a))"
    using loud by (rule correlations_constant)
  have e: "\<not> js_lt (signalEnergy (replicate n (Finite a))) (Finite (1 / 1000))"
    using loud n by (simp add: signalEnergy_constant)
  have p: "findPeak (correlations (replicate n (Finite a))) \<lfloor>sampleRate / MAX_FREQUENCY\<rfloor>
             \<lceil>sampleRate / MIN_FREQUENCY\<rceil> = (m, Finite (a * a))"
    unfolding m_def using loud lag by (rule findPeak_constant_window)
  have c: "\<not> js_lt (js_div (Finite (a * a)) (corr_at (correlations (replicate n (Finite a))) 0))
              (Finite THRESHOLD)"
    using v n by (simp add: cs corr_at_constant THRESHOLD_def js_quotient_moderate)
  have i: "0 < m" "m < int (length (replicate n (Finite a))) - 1"
    using lag by (simp_all add: m_def)
  have "peakOffset (replicate n (Finite (a * a))) m = NaN"
    using i by (simp add: peakOffset_def denominator_def corr_at_constant js_sub_def)
  with detectPitch_interpolated [OF e p c i] show ?thesis
    by (simp add: cs)
qed

text \<open>
  C2. \<open>detectPitch\<close> on the constant window of 1024 samples of 0.5 at 44100 Hz: all
  correlations are 0.25, the peak lag is 29 and lies inside the window, the denominator
  \<open>0.25 - 2 * 0.25 + 0.25\<close> is 0, no fallback to the integer lag takes place, and the
  result is \<open>0.5 * 0 / 0\<close> carried through, which is \<open>NaN\<close>, not \<open>44100 / 29\<close>.
\<close>

theorem detectPitch_flat_window:
  "findPeak (correlations (replicate 1024 (Finite (1 / 2))))
      \<lfloor>44100 / MAX_FREQUENCY\<rfloor> \<lceil>44100 / MIN_FREQUENCY\<rceil> = (29, Finite (1 / 4)) \<and>
   denominator (correlations (replicate 1024 (Finite (1 / 2)))) 29 = Finite 0 \<and>
   detectPitch (replicate 1024 (Finite (1 / 2))) 44100 = NaN \<and>
   detectPitch (replicate 1024 (Finite (1 / 2))) 44100 \<noteq> js_div (Finite 44100) (Finite 29)"
proof -
  have m: "\<lfloor>44100 / MAX_FREQUENCY\<rfloor> = 29" and M: "\<lceil>44100 / MIN_FREQUENCY\<rceil> = 882"
    by (simp_all add: MAX_FREQUENCY_def MIN_FREQUENCY_def)
  have a: "1 / 1000 \<le> (1 / 2 :: real) * (1 / 2)" "(1 / 2 :: real) * (1 / 2) < OVERFLOW"
    using OVERFLOW_moderate by simp_all
  have "findPeak (correlations (replicate 1024 (Finite (1 / 2))))
      \<lfloor>44100 / MAX_FREQUENCY\<rfloor> \<lceil>44100 / MIN_FREQUENCY\<rceil>
        = (\<lfloor>44100 / MAX_FREQUENCY\<rfloor>, Finite (1 / 2 * (1 / 2)))"
    using a by (rule findPeak_constant_window) (simp_all add: m M)
  moreover have "denominator (correlations (replicate 1024 (Finite (1 / 2)))) 29 = Finite 0"
    by (simp add: correlations_constant [OF a] denominator_def corr_at_constant js_sub_def)
  moreover have "detectPitch (replicate 1024 (Finite (1 / 2))) 44100 = NaN"
    using a by (rule detectPitch_constant_window) (simp_all add: m M)
  moreover have "js_div (Finite 44100) (Finite 29) \<noteq> NaN"
    by (simp add: js_quotient_moderate)
  ultimately show ?thesis by (simp add: m)
qed

text \<open>
  With unequal neighbours the result is 0: for the window \<open>[1, 5, 1]\<close> at 1500 Hz the
  correlations are 9, 5 and 1, the peak lag is 1 and the denominator \<open>9 - 2 * 5 + 1\<close> is 0.
\<close>

lemma corr_151: "correlations [Finite 1, Finite 5, Finite 1] = [Finite 9, Finite 5, Finite 1]"
  by (simp add: correlations_def correlation_def upt_conv_Cons js_quotient_moderate)

lemma energy_151: "signalEnergy [Finite 1, Finite 5, Finite 1] = Finite 9"
  by (simp add: signalEnergy_def upt_conv_Cons js_quotient_moderate)

lemma peak_151: "findPeak [Finite 9, Finite 5, Finite 1] 1 30 = (1, Finite 5)"
  by (simp add: findPeak_def upto.simps peak_step_def corr_at_def js_gt_def)

lemma detectPitch_151: "detectPitch [Finite 1, Finite 5, Finite 1] 1500 = Finite 0"
proof -
  have e: "\<not> js_lt (signalEnergy [Finite 1, Finite 5, Finite 1]) (Finite (1 / 1000))"
    by (simp add: energy_151)
  have p: "findPeak (correlations [Finite 1, Finite 5, Finite 1])
      \<lfloor>1500 / MAX_FREQUENCY\<rfloor> \<lceil>1500 / MIN_FREQUENCY\<rceil> = (1, Finite 5)"
    by (simp add: corr_151 peak_151 MAX_FREQUENCY_def MIN_FREQUENCY_def)
  have c: "\<not> js_lt (js_div (Finite 5) (corr_at (correlations [Finite 1, Finite 5, Finite 1]) 0))
        (Finite THRESHOLD)"
    by (simp add: corr_151 corr_at_def THRESHOLD_def js_quotient_moderate)
  have i: "(0::int) < 1" "(1::int) < int (length [Finite 1, Finite 5, Finite 1]) - 1"
    by simp_all
  have d: "denominator (correlations [Finite 1, Finite 5, Finite 1]) 1 = Finite 0"
    by (simp add: corr_151 denominator_def corr_at_def js_sub_def)
  from detectPitch_zero_denominator [OF e p c i d] show ?thesis
    by (simp add: corr_151 corr_at_def)
qed

end
